theory Spec2Isabelle
  imports Complex_Main "HOL-Library.Word" "HOL-Library.Multiset"
begin

unbundle bit_operations_syntax

section \<open>Numbers, fields and data types of the host engine\<close>

text \<open>
  The development embeds \<^verbatim>\<open>dbms/src/AggregateFunctions/AggregateFunctionQuantile.h\<close>:
  the two aggregate functions \<^verbatim>\<open>quantile\<close> and \<^verbatim>\<open>quantiles\<close> over a reservoir sampler.

  A \<^verbatim>\<open>double\<close> is idealised as a real number: rounding, infinities and NaN inputs are not
  modelled. The one NaN the program produces itself, the result on an empty sample, is a
  constructor of the scalar type of result columns.
\<close>

type_synonym byte = "8 word"
type_synonym UInt64 = "64 word"

datatype Scalar = NaN | Val real

datatype ErrorCode =
    NUMBER_OF_ARGUMENTS_DOESNT_MATCH
  | ParameterTypeError
  | ConfigurationError
  | DeserializationError

text \<open>
  Modelled from the spec: \<^verbatim>\<open>Field\<close> (Core/Field.h) is not part of the sources at hand. A
  parameter of an aggregate function is a numeric literal (unsigned, signed or floating) or
  a non-numeric value; the spec only distinguishes numeric from non-numeric levels.
\<close>

datatype Field = Null | UInt64 UInt64 | Int64 UInt64 | Float64 real | String string

type_synonym Array = "Field list"

text \<open>
  Modelled from the spec: \<^verbatim>\<open>applyVisitor(FieldVisitorConvertToNumber<Float64>(), x)\<close>
  (Common/FieldVisitors.h) is not part of the sources at hand. By the spec, configuration
  fails with a parameter-type error if a level is non-numeric; a numeric field is converted
  to its value (a signed field is read in two's complement).
\<close>

fun convertToFloat64 :: "Field \<Rightarrow> ErrorCode + real" where
  "convertToFloat64 (UInt64 x) = Inr (real (unat x))"
| "convertToFloat64 (Int64 x) = Inr (real_of_int (sint x))"
| "convertToFloat64 (Float64 x) = Inr x"
| "convertToFloat64 Null = Inl ParameterTypeError"
| "convertToFloat64 (String s) = Inl ParameterTypeError"

fun isNumeric :: "Field \<Rightarrow> bool" where
  "isNumeric (UInt64 x) = True"
| "isNumeric (Int64 x) = True"
| "isNumeric (Float64 x) = True"
| "isNumeric Null = False"
| "isNumeric (String s) = False"

text \<open>
  The data types of the host (DataTypes/DataTypesNumber.h, DataTypes/DataTypeArray.h). A
  \<^verbatim>\<open>DataTypePtr\<close> is a shared pointer and may be null.
\<close>

datatype DataType =
    DataTypeUInt8 | DataTypeUInt16 | DataTypeUInt32 | DataTypeUInt64
  | DataTypeInt8 | DataTypeInt16 | DataTypeInt32 | DataTypeInt64
  | DataTypeFloat32 | DataTypeFloat64
  | DataTypeDate | DataTypeDateTime
  | DataTypeArray "DataType option"

type_synonym DataTypePtr = "DataType option"

text \<open>
  The template parameter \<^verbatim>\<open>ArgumentFieldType\<close> is a type variable \<open>'a\<close> together with
  what the program uses of it: the value of an element as a \<^verbatim>\<open>double\<close>, and the implicit
  conversion of a \<^verbatim>\<open>double\<close>, NaN included, to it (as a number).
  The template parameter \<^verbatim>\<open>returns_float\<close> is a boolean argument.
\<close>

record 'a NumericKind =
  to_double :: "'a \<Rightarrow> real"
  of_double :: "Scalar \<Rightarrow> Scalar"

section \<open>The reservoir sampler\<close>

text \<open>
  Modelled from the spec: \<^verbatim>\<open>ReservoirSampler\<close> (AggregateFunctions/ReservoirSampler.h) is
  not part of the sources at hand. The state is the one of the spec's data model:
  \<open>capacity\<close> and \<open>seen_count\<close> are fixed-width unsigned integers (\<^verbatim>\<open>size_t\<close>, 64 bits),
  \<open>sample\<close> is the buffer in storage order, \<open>rng_state\<close> the state of the generator.
\<close>

record ('a, 'r) ReservoirSampler =
  capacity :: UInt64
  seen_count :: UInt64
  sample :: "'a list"
  rng_state :: 'r

text \<open>
  The pseudo-random generator is not specified; it is a parameter \<open>gen\<close> of the operations
  that draw: \<open>gen g n\<close> returns a number (meant to be uniform below \<open>n\<close>) and the next state.
  \<open>lcg\<close> is one such generator, used to run the model.
\<close>

type_synonym 'r Generator = "'r \<Rightarrow> nat \<Rightarrow> nat \<times> 'r"

definition lcg :: "nat Generator" where
  "lcg g n = ((if n = 0 then 0 else g mod n), (g * 75 + 74) mod 65537)"

text \<open>Modelled from the spec: \<open>seen_count\<close> saturates at the maximum of its type.\<close>

definition saturating_add :: "UInt64 \<Rightarrow> UInt64 \<Rightarrow> UInt64" where
  "saturating_add a b = (if unat a + unat b < 2 ^ 64 then a + b else - 1)"

text \<open>
  Modelled from the spec: construction; \<open>capacity <= 0\<close> is a configuration error,
  rejected eagerly. The seed is injected.
\<close>

definition ReservoirSampler_new :: "UInt64 \<Rightarrow> 'r \<Rightarrow> ErrorCode + ('a, 'r) ReservoirSampler" where
  "ReservoirSampler_new k seed =
     (if k = 0 then Inl ConfigurationError
      else Inr \<lparr>capacity = k, seen_count = 0, sample = [], rng_state = seed\<rparr>)"

text \<open>
  Modelled from the spec: \<^verbatim>\<open>insert(value)\<close>. If \<open>seen_count < capacity\<close>, append the value
  and increment \<open>seen_count\<close>. Otherwise increment \<open>seen_count\<close> and, with probability
  \<open>capacity / seen_count\<close>, replace a uniformly chosen slot: one number is drawn below the
  new \<open>seen_count\<close>, and it is the slot when it is below \<open>capacity\<close>.
\<close>

definition sampler_insert ::
  "'r Generator \<Rightarrow> 'a \<Rightarrow> ('a, 'r) ReservoirSampler \<Rightarrow> ('a, 'r) ReservoirSampler" where
  "sampler_insert gen v s =
     (if seen_count s < capacity s
      then s\<lparr>sample := sample s @ [v], seen_count := saturating_add (seen_count s) 1\<rparr>
      else
        let n = saturating_add (seen_count s) 1;
            (r, g) = gen (rng_state s) (unat n)
        in s\<lparr>seen_count := n, rng_state := g,
             sample := (if r < unat (capacity s) then (sample s)[r := v] else sample s)\<rparr>)"

text \<open>A sequence of inserts, in order.\<close>

fun insert_all ::
  "'r Generator \<Rightarrow> 'a list \<Rightarrow> ('a, 'r) ReservoirSampler \<Rightarrow> ('a, 'r) ReservoirSampler" where
  "insert_all gen [] s = s"
| "insert_all gen (v # vs) s = insert_all gen vs (sampler_insert gen v s)"

text \<open>
  Modelled from the spec: the weighted random subset of \<^verbatim>\<open>merge\<close>. The spec leaves the
  algorithm open; this one fills \<open>k\<close> slots, choosing the source of each slot with
  probability proportional to its share \<open>wa\<close> or \<open>wb\<close> of the combined count (the other
  source once one is used up), and taking a uniformly chosen remaining element of it.
\<close>

fun draw_subset ::
  "'r Generator \<Rightarrow> nat \<Rightarrow> nat \<Rightarrow> nat \<Rightarrow> 'a list \<Rightarrow> 'a list \<Rightarrow> 'r \<Rightarrow> 'a list \<times> 'r" where
  "draw_subset gen 0 wa wb xs ys g = ([], g)"
| "draw_subset gen (Suc k) wa wb xs ys g =
     (if xs = [] \<and> ys = [] then ([], g)
      else
        let (r, g1) = gen g (wa + wb);
            from_xs = (ys = [] \<or> (xs \<noteq> [] \<and> r < wa));
            src = (if from_xs then xs else ys);
            (i, g2) = gen g1 (length src);
            j = i mod length src;
            src' = take j src @ drop (Suc j) src;
            (rest, g3) = draw_subset gen k wa wb
                           (if from_xs then src' else xs) (if from_xs then ys else src') g2
        in (src ! j # rest, g3))"

text \<open>
  Modelled from the spec: \<^verbatim>\<open>merge(other)\<close>. \<open>combined_seen = seen_count + other.seen_count\<close>;
  if the combined sample fits within \<open>capacity\<close>, all elements of both are kept; otherwise a
  weighted random subset of the union, of \<open>capacity\<close> elements, is drawn.
\<close>

definition sampler_merge ::
  "'r Generator \<Rightarrow> ('a, 'r) ReservoirSampler \<Rightarrow> ('a, 'r) ReservoirSampler \<Rightarrow> ('a, 'r) ReservoirSampler" where
  "sampler_merge gen s other =
     (let combined_seen = saturating_add (seen_count s) (seen_count other)
      in if length (sample s) + length (sample other) \<le> unat (capacity s)
         then s\<lparr>sample := sample s @ sample other, seen_count := combined_seen\<rparr>
         else
           let (chosen, g) = draw_subset gen (unat (capacity s))
                               (unat (seen_count s)) (unat (seen_count other))
                               (sample s) (sample other) (rng_state s)
           in s\<lparr>sample := chosen, seen_count := combined_seen, rng_state := g\<rparr>)"

text \<open>The invariant of the spec's data model: \<open>|sample| == min(seen_count, capacity)\<close>.\<close>

definition sampler_inv :: "('a, 'r) ReservoirSampler \<Rightarrow> bool" where
  "sampler_inv s \<longleftrightarrow> length (sample s) = min (unat (seen_count s)) (unat (capacity s))"

text \<open>
  Modelled from the spec: \<^verbatim>\<open>quantileInterpolated(level)\<close> with the policy
  \<^verbatim>\<open>ReservoirSamplerOnEmpty::RETURN_NAN_OR_ZERO\<close>. The level is clamped to \<open>[0,1]\<close>; the
  fractional rank is \<open>r = level * (n - 1)\<close>; the result interpolates linearly between the
  sorted values at \<open>floor(r)\<close> and \<open>ceil(r)\<close>; on an empty sample it is the sentinel, NaN for a
  floating result and zero for an integral one. The sampler type is
  \<^verbatim>\<open>ReservoirSampler<ArgumentFieldType, RETURN_NAN_OR_ZERO>\<close>: it knows nothing of
  \<^verbatim>\<open>returns_float\<close>, and both branches of the callers make the same call.

  The sort is done on the sampler's own buffer: the callers in AggregateFunctionQuantile.h
  take the sample of the state through a \<^verbatim>\<open>const_cast\<close>, without a copy, and say
  "\<^verbatim>\<open>Sample\<close> can be sorted when a quantile is received". So the function returns the
  sampler too, its buffer sorted.
\<close>

definition clamp_level :: "real \<Rightarrow> real" where
  "clamp_level level = max 0 (min 1 level)"

text \<open>
  Modelled from the spec: the interpolation between the sorted values at \<open>floor(r)\<close> and
  \<open>ceil(r)\<close>, for the clamped level; both indices are within the list when it is not empty.
\<close>

definition interpolate :: "real list \<Rightarrow> real \<Rightarrow> real" where
  "interpolate xs level =
     (let r = clamp_level level * real (length xs - 1);
          lo = nat \<lfloor>r\<rfloor>;
          hi = nat \<lceil>r\<rceil>
      in xs ! lo + (r - real lo) * (xs ! hi - xs ! lo))"

text \<open>
  Modelled from the spec: the policy \<^verbatim>\<open>RETURN_NAN_OR_ZERO\<close>, the sentinel by the type of
  the result: NaN for a floating result, zero for an integral one.
\<close>

definition onEmpty :: "bool \<Rightarrow> Scalar" where
  "onEmpty floating_result = (if floating_result then NaN else Val 0)"

text \<open>
  Modelled from the spec: the quantile read off a sorted sample. The result is an
  interpolated value, a \<^verbatim>\<open>double\<close> whatever the argument type (line 98 pushes it into a
  \<^verbatim>\<open>ColumnFloat64\<close> as it is), so on an empty sample it is the sentinel of a floating
  result.
\<close>

definition quantile_of_sorted :: "'a NumericKind \<Rightarrow> 'a list \<Rightarrow> real \<Rightarrow> Scalar" where
  "quantile_of_sorted kind ys level =
     (if ys = [] then onEmpty True
      else Val (interpolate (map (to_double kind) ys) level))"

text \<open>
  Modelled from the spec: \<^verbatim>\<open>quantileInterpolated\<close> itself, sorting the buffer of the sampler
  and reading the quantile off it.
\<close>

definition quantileInterpolated ::
  "'a NumericKind \<Rightarrow> real \<Rightarrow> ('a, 'r) ReservoirSampler \<Rightarrow> Scalar \<times> ('a, 'r) ReservoirSampler" where
  "quantileInterpolated kind level s =
     (let ys = sort_key (to_double kind) (sample s)
      in (quantile_of_sorted kind ys level, s\<lparr>sample := ys\<rparr>))"

section \<open>The serializer\<close>

text \<open>
  Modelled from the spec: the value type's fixed-width encoding. A value of a numeric type
  is its bit pattern, a word of the width of the type, written in as many bytes as the
  width takes, least significant byte first.
\<close>

fun put_bytes :: "nat \<Rightarrow> 'v::len word \<Rightarrow> byte list" where
  "put_bytes 0 w = []"
| "put_bytes (Suc n) w = ucast w # put_bytes n (drop_bit 8 w)"

text \<open>Modelled from the spec: the decoding of a fixed-width value, the inverse of \<open>put_bytes\<close>.\<close>

fun get_bytes :: "byte list \<Rightarrow> 'v::len word" where
  "get_bytes [] = 0"
| "get_bytes (b # bs) = ucast b OR push_bit 8 (get_bytes bs)"

text \<open>
  Modelled from the spec: a fixed-width unsigned integer (8 bytes) and a sample value (the
  bytes of its type) in the buffer.
\<close>

definition writeIntBinary :: "UInt64 \<Rightarrow> byte list" where
  "writeIntBinary x = put_bytes 8 x"

definition writeBinary :: "'v::len word \<Rightarrow> byte list" where
  "writeBinary x = put_bytes ((LENGTH('v) + 7) div 8) x"

text \<open>
  Modelled from the spec: \<^verbatim>\<open>write(buf)\<close>, the layout of section 4.5: \<open>capacity\<close>,
  \<open>seen_count\<close>, the current sample length (stored explicitly), then the raw sample values
  in storage order.
\<close>

definition sampler_write :: "('v::len word, 'r) ReservoirSampler \<Rightarrow> byte list" where
  "sampler_write s =
     writeIntBinary (capacity s) @ writeIntBinary (seen_count s)
     @ writeIntBinary (word_of_nat (length (sample s)))
     @ concat (map writeBinary (sample s))"

text \<open>
  Modelled from the spec: reading \<open>n\<close> raw values of \<open>w\<close> bytes each; \<open>None\<close> when the buffer
  ends before the last of them.
\<close>

fun read_values :: "nat \<Rightarrow> nat \<Rightarrow> byte list \<Rightarrow> ('v::len word list \<times> byte list) option" where
  "read_values 0 w buf = Some ([], buf)"
| "read_values (Suc n) w buf =
     (if w = 0 \<or> length buf < w then None
      else case read_values n w (drop w buf) of
             None \<Rightarrow> None
           | Some (vs, rest) \<Rightarrow> Some (get_bytes (take w buf) # vs, rest))"

text \<open>
  Modelled from the spec: \<^verbatim>\<open>read(buf)\<close>. A buffer that ends early, or a stored length that
  is not \<open>min(capacity, seen_count)\<close>, is a deserialization error; nothing is truncated.
  The bytes after the state stay in the buffer. The generator state is not part of the
  layout, so the cell keeps its own.
\<close>

definition sampler_read ::
  "('v::len word, 'r) ReservoirSampler \<Rightarrow> byte list
     \<Rightarrow> ErrorCode + (('v word, 'r) ReservoirSampler \<times> byte list)" where
  "sampler_read place buf =
     (if length buf < 24 then Inl DeserializationError
      else
        let cap = (get_bytes (take 8 buf) :: UInt64);
            seen = (get_bytes (take 8 (drop 8 buf)) :: UInt64);
            len = (get_bytes (take 8 (drop 16 buf)) :: UInt64)
        in if unat len \<noteq> min (unat seen) (unat cap) then Inl DeserializationError
           else case read_values (unat len) ((LENGTH('v) + 7) div 8) (drop 24 buf) of
                  None \<Rightarrow> Inl DeserializationError
                | Some (vs, rest) \<Rightarrow>
                    Inr (place\<lparr>capacity := cap, seen_count := seen, sample := vs\<rparr>, rest))"

section \<open>The aggregate functions\<close>

text \<open>
  \<^verbatim>\<open>AggregateFunctionQuantileData\<close> is a struct with the single field \<^verbatim>\<open>sample\<close>; the
  state of a cell is that sampler. The members that both classes define with the same body
  (\<^verbatim>\<open>addImpl\<close>, \<^verbatim>\<open>merge\<close>, \<^verbatim>\<open>serialize\<close>, \<^verbatim>\<open>deserialize\<close>) are embedded once.
  \<^verbatim>\<open>addImpl\<close> reads row \<open>row_num\<close> of the column; a row outside the column is no value.
\<close>

definition addImpl ::
  "'r Generator \<Rightarrow> ('a, 'r) ReservoirSampler \<Rightarrow> 'a list \<Rightarrow> nat \<Rightarrow> ('a, 'r) ReservoirSampler option" where
  "addImpl gen place column row_num =
     (if row_num < length column then Some (sampler_insert gen (column ! row_num) place)
      else None)"

definition merge ::
  "'r Generator \<Rightarrow> ('a, 'r) ReservoirSampler \<Rightarrow> ('a, 'r) ReservoirSampler \<Rightarrow> ('a, 'r) ReservoirSampler" where
  "merge gen place rhs = sampler_merge gen place rhs"

definition serialize :: "('v::len word, 'r) ReservoirSampler \<Rightarrow> byte list" where
  "serialize place = sampler_write place"

definition deserialize ::
  "('v::len word, 'r) ReservoirSampler \<Rightarrow> byte list
     \<Rightarrow> ErrorCode + (('v word, 'r) ReservoirSampler \<times> byte list)" where
  "deserialize place buf = sampler_read place buf"

subsection \<open>\<^verbatim>\<open>AggregateFunctionQuantile\<close>\<close>

record AggregateFunctionQuantile =
  level :: real
  type :: DataTypePtr

definition AggregateFunctionQuantile_init :: "real \<Rightarrow> AggregateFunctionQuantile" where
  "AggregateFunctionQuantile_init l = \<lparr>level = l, type = None\<rparr>"

text \<open>The constructor's default argument: \<^verbatim>\<open>double level_ = 0.5\<close>.\<close>

definition AggregateFunctionQuantile_default :: AggregateFunctionQuantile where
  "AggregateFunctionQuantile_default = AggregateFunctionQuantile_init (1 / 2)"

definition Quantile_getReturnType :: "AggregateFunctionQuantile \<Rightarrow> DataTypePtr" where
  "Quantile_getReturnType f = type f"

definition Quantile_setArgument ::
  "bool \<Rightarrow> DataTypePtr \<Rightarrow> AggregateFunctionQuantile \<Rightarrow> AggregateFunctionQuantile" where
  "Quantile_setArgument returns_float argument f =
     (if returns_float then f\<lparr>type := Some DataTypeFloat64\<rparr> else f\<lparr>type := argument\<rparr>)"

definition Quantile_setParameters ::
  "Array \<Rightarrow> AggregateFunctionQuantile \<Rightarrow> ErrorCode + AggregateFunctionQuantile" where
  "Quantile_setParameters params f =
     (if length params \<noteq> 1 then Inl NUMBER_OF_ARGUMENTS_DOESNT_MATCH
      else case convertToFloat64 (params ! 0) of
             Inl e \<Rightarrow> Inl e
           | Inr x \<Rightarrow> Inr (f\<lparr>level := x\<rparr>))"

text \<open>
  What \<^verbatim>\<open>push_back\<close> stores of the \<^verbatim>\<open>double\<close> that the sampler returned: the value as it
  is in the container of a \<^verbatim>\<open>ColumnFloat64\<close>, its implicit conversion to the argument type
  in the one of a \<^verbatim>\<open>ColumnVector<ArgumentFieldType>\<close>.
\<close>

definition pushed_value :: "'a NumericKind \<Rightarrow> bool \<Rightarrow> Scalar \<Rightarrow> Scalar" where
  "pushed_value kind returns_float q = (if returns_float then q else of_double kind q)"

text \<open>
  \<^verbatim>\<open>insertResultInto\<close> pushes the quantile at the end of the column; the state it was
  given as \<^verbatim>\<open>const\<close> is returned, as the sampler left it.
\<close>

definition Quantile_insertResultInto ::
  "'a NumericKind \<Rightarrow> bool \<Rightarrow> AggregateFunctionQuantile \<Rightarrow> ('a, 'r) ReservoirSampler
     \<Rightarrow> Scalar list \<Rightarrow> ('a, 'r) ReservoirSampler \<times> Scalar list" where
  "Quantile_insertResultInto kind returns_float f place to =
     (let (q, place') = quantileInterpolated kind (level f) place
      in (place', to @ [pushed_value kind returns_float q]))"

subsection \<open>\<^verbatim>\<open>AggregateFunctionQuantiles\<close>\<close>

record AggregateFunctionQuantiles =
  levels :: "real list"
  type :: DataTypePtr

text \<open>
  A \<^verbatim>\<open>ColumnArray\<close>: the offsets (the end of each array in the nested column), 64-bit
  unsigned integers whose addition wraps around, and the data of the nested column.
\<close>

record ColumnArray =
  offsets :: "UInt64 list"
  data :: "Scalar list"

definition Quantiles_getReturnType :: "AggregateFunctionQuantiles \<Rightarrow> DataTypePtr" where
  "Quantiles_getReturnType f = Some (DataTypeArray (type f))"

definition Quantiles_setArgument ::
  "bool \<Rightarrow> DataTypePtr \<Rightarrow> AggregateFunctionQuantiles \<Rightarrow> AggregateFunctionQuantiles" where
  "Quantiles_setArgument returns_float argument f =
     (if returns_float then f\<lparr>type := Some DataTypeFloat64\<rparr> else f\<lparr>type := argument\<rparr>)"

definition resize :: "nat \<Rightarrow> real list \<Rightarrow> real list" where
  "resize n xs = take n xs @ replicate (n - length xs) 0"

text \<open>
  The loop \<^verbatim>\<open>for (i = 0; i < size; ++i) levels[i] = convert(params[i])\<close>, from \<open>i\<close> on. An
  exception of the conversion ends it; the function object, its levels resized and assigned
  in part, is then of no use, and the result is the exception alone.
\<close>

fun setParameters_loop :: "Array \<Rightarrow> nat \<Rightarrow> real list \<Rightarrow> ErrorCode + real list" where
  "setParameters_loop [] i ls = Inr ls"
| "setParameters_loop (p # ps) i ls =
     (case convertToFloat64 p of
        Inl e \<Rightarrow> Inl e
      | Inr x \<Rightarrow> setParameters_loop ps (Suc i) (ls[i := x]))"

definition Quantiles_setParameters ::
  "Array \<Rightarrow> AggregateFunctionQuantiles \<Rightarrow> ErrorCode + AggregateFunctionQuantiles" where
  "Quantiles_setParameters params f =
     (if params = [] then Inl NUMBER_OF_ARGUMENTS_DOESNT_MATCH
      else
        let size = length params
        in case setParameters_loop params 0 (resize size (levels f)) of
             Inl e \<Rightarrow> Inl e
           | Inr ls \<Rightarrow> Inr (f\<lparr>levels := ls\<rparr>))"

text \<open>
  The loop \<^verbatim>\<open>for (i = 0; i < size; ++i) data_to.push_back(sample.quantileInterpolated(levels[i]))\<close>,
  the same in both branches but for the container.
\<close>

fun insertResultInto_loop ::
  "'a NumericKind \<Rightarrow> bool \<Rightarrow> real list \<Rightarrow> ('a, 'r) ReservoirSampler \<Rightarrow> Scalar list
     \<Rightarrow> ('a, 'r) ReservoirSampler \<times> Scalar list" where
  "insertResultInto_loop kind returns_float [] place data_to = (place, data_to)"
| "insertResultInto_loop kind returns_float (l # ls) place data_to =
     (let (q, place') = quantileInterpolated kind l place
      in insertResultInto_loop kind returns_float ls place'
           (data_to @ [pushed_value kind returns_float q]))"

definition Quantiles_insertResultInto ::
  "'a NumericKind \<Rightarrow> bool \<Rightarrow> AggregateFunctionQuantiles \<Rightarrow> ('a, 'r) ReservoirSampler
     \<Rightarrow> ColumnArray \<Rightarrow> ('a, 'r) ReservoirSampler \<times> ColumnArray" where
  "Quantiles_insertResultInto kind returns_float f place to =
     (let size = (word_of_nat (length (levels f)) :: UInt64);
          offsets_to = offsets to @ [(if offsets to = [] then 0 else last (offsets to)) + size];
          (place', data_to) = insertResultInto_loop kind returns_float (levels f) place (data to)
      in (place', \<lparr>offsets = offsets_to, data = data_to\<rparr>))"

text \<open>
  The offset that closes the last array of the column (0 for a column with no array), and
  the consistency of an array column: that offset, read as a number, is the size of the
  nested column.
\<close>

definition last_offset :: "ColumnArray \<Rightarrow> UInt64" where
  "last_offset c = (if offsets c = [] then 0 else last (offsets c))"

definition column_consistent :: "ColumnArray \<Rightarrow> bool" where
  "column_consistent c \<longleftrightarrow> unat (last_offset c) = length (data c)"

text \<open>The host finalizes one cell after the other into the same column.\<close>

fun insertResultInto_all ::
  "'a NumericKind \<Rightarrow> bool \<Rightarrow> AggregateFunctionQuantiles \<Rightarrow> ('a, 'r) ReservoirSampler list
     \<Rightarrow> ColumnArray \<Rightarrow> ColumnArray" where
  "insertResultInto_all kind returns_float f [] to = to"
| "insertResultInto_all kind returns_float f (place # places) to =
     insertResultInto_all kind returns_float f places
       (snd (Quantiles_insertResultInto kind returns_float f place to))"

subsection \<open>Two value kinds\<close>

text \<open>
  \<^verbatim>\<open>Int64\<close>: the conversion of a \<^verbatim>\<open>double\<close> to it truncates towards zero. The language
  leaves the conversion of NaN undefined; the conversion instruction of x86-64, the
  platform of the program, gives the smallest value of the type, \<open>- 2 ^ 63\<close>.
\<close>

definition Int64_of_double :: "Scalar \<Rightarrow> Scalar" where
  "Int64_of_double x =
     (case x of
        NaN \<Rightarrow> Val (- (2 ^ 63))
      | Val r \<Rightarrow> Val (real_of_int (if r < 0 then \<lceil>r\<rceil> else \<lfloor>r\<rfloor>)))"

definition Int64_kind :: "int NumericKind" where
  "Int64_kind = \<lparr>to_double = real_of_int, of_double = Int64_of_double\<rparr>"

text \<open>\<^verbatim>\<open>Float64\<close>: the conversion of a \<^verbatim>\<open>double\<close> to it changes nothing.\<close>

definition Float64_kind :: "real NumericKind" where
  "Float64_kind = \<lparr>to_double = (\<lambda>x. x), of_double = (\<lambda>x. x)\<rparr>"

subsection \<open>The states of a cell\<close>

text \<open>
  A cell is created with a sampler of the capacity that all cells of the function have;
  values are added to it, and cells whose producers have finished are combined into it.
  \<open>cell_state\<close> is the state a cell comes to by such a history.
\<close>

datatype ('a, 'r) History =
    Created 'r
  | Added 'a "('a, 'r) History"
  | Combined "('a, 'r) History" "('a, 'r) History"

fun cell_state ::
  "'r Generator \<Rightarrow> UInt64 \<Rightarrow> ('a, 'r) History \<Rightarrow> ErrorCode + ('a, 'r) ReservoirSampler" where
  "cell_state gen k (Created seed) = ReservoirSampler_new k seed"
| "cell_state gen k (Added v h) =
     (case cell_state gen k h of
        Inl e \<Rightarrow> Inl e
      | Inr place \<Rightarrow> Inr (sampler_insert gen v place))"
| "cell_state gen k (Combined h1 h2) =
     (case cell_state gen k h1 of
        Inl e \<Rightarrow> Inl e
      | Inr place \<Rightarrow>
          (case cell_state gen k h2 of
             Inl e \<Rightarrow> Inl e
           | Inr rhs \<Rightarrow> Inr (merge gen place rhs)))"

section \<open>Auxiliary facts\<close>

lemma unat_saturating_add:
  "unat (saturating_add a b) = min (unat a + unat b) (2 ^ 64 - 1)"
  by (auto simp add: saturating_add_def unat_word_ariths unsigned_minus_1_eq_mask mask_eq_exp_minus_1)

lemma sampler_insert_capacity [simp]: "capacity (sampler_insert gen v s) = capacity s"
  by (simp add: sampler_insert_def Let_def split: prod.splits)

lemma sampler_insert_seen_count:
  "seen_count (sampler_insert gen v s) = saturating_add (seen_count s) 1"
  by (simp add: sampler_insert_def Let_def split: prod.splits)

lemma sampler_insert_inv:
  assumes "sampler_inv s"
  shows "sampler_inv (sampler_insert gen v s)"
proof (cases "seen_count s < capacity s")
  case True
  then have lt: "unat (seen_count s) < unat (capacity s)"
    by (simp add: word_less_nat_alt)
  moreover have "unat (capacity s) < 2 ^ 64"
    using unsigned_less [of "capacity s"] by simp
  ultimately show ?thesis
    using assms True
    by (simp add: sampler_inv_def sampler_insert_def unat_saturating_add)
next
  case False
  then have ge: "unat (capacity s) \<le> unat (seen_count s)"
    by (simp add: word_less_nat_alt)
  moreover have "unat (capacity s) < 2 ^ 64"
    using unsigned_less [of "capacity s"] by simp
  ultimately show ?thesis
    using assms False
    by (auto simp add: sampler_inv_def sampler_insert_def unat_saturating_add Let_def split: prod.splits)
qed

lemma insert_all_capacity [simp]: "capacity (insert_all gen vs s) = capacity s"
  by (induction vs arbitrary: s) simp_all

lemma insert_all_inv: "sampler_inv s \<Longrightarrow> sampler_inv (insert_all gen vs s)"
  by (induction vs arbitrary: s) (simp_all add: sampler_insert_inv)

lemma insert_all_seen_count:
  "unat (seen_count (insert_all gen vs s)) = min (unat (seen_count s) + length vs) (2 ^ 64 - 1)"
proof (induction vs arbitrary: s)
  case Nil
  have "unat (seen_count s) < 2 ^ 64"
    using unsigned_less [of "seen_count s"] by simp
  then show ?case by simp
next
  case (Cons v vs)
  show ?case
    by (simp add: Cons sampler_insert_seen_count unat_saturating_add)
qed

lemma length_draw_subset:
  "k \<le> length xs + length ys \<Longrightarrow> length (fst (draw_subset gen k wa wb xs ys g)) = k"
proof (induction k arbitrary: xs ys g)
  case 0
  then show ?case by simp
next
  case (Suc k)
  then have ne: "\<not> (xs = [] \<and> ys = [])" by auto
  obtain r g1 where r: "gen g (wa + wb) = (r, g1)" by (cases "gen g (wa + wb)")
  define from_xs where "from_xs \<longleftrightarrow> ys = [] \<or> (xs \<noteq> [] \<and> r < wa)"
  define src where "src = (if from_xs then xs else ys)"
  obtain i g2 where i: "gen g1 (length src) = (i, g2)" by (cases "gen g1 (length src)")
  define j where "j = i mod length src"
  define src' where "src' = take j src @ drop (Suc j) src"
  have src_ne: "src \<noteq> []" using ne by (auto simp: src_def from_xs_def)
  then have j_lt: "j < length src" by (simp add: j_def)
  then have len': "length src' = length src - 1" by (simp add: src'_def)
  have "k \<le> length (if from_xs then src' else xs) + length (if from_xs then ys else src')"
    using Suc.prems len' src_ne by (auto simp: src_def)
  from Suc.IH [OF this]
  have IH: "length (fst (draw_subset gen k wa wb (if from_xs then src' else xs) (if from_xs then ys else src') g2)) = k" .
  show ?case
  proof (cases from_xs)
    case True
    then have "ys = [] \<or> (xs \<noteq> [] \<and> r < wa)" by (simp add: from_xs_def)
    moreover have "src = xs" using True by (simp add: src_def)
    ultimately show ?thesis
      using ne r i IH True
      by (auto simp add: Let_def src'_def j_def split: prod.splits)
  next
    case False
    then have "\<not> (ys = [] \<or> (xs \<noteq> [] \<and> r < wa))" by (simp add: from_xs_def)
    moreover have "src = ys" using False by (simp add: src_def)
    ultimately show ?thesis
      using ne r i IH False
      by (auto simp add: Let_def src'_def j_def split: prod.splits)
  qed
qed

lemma sampler_merge_capacity [simp]: "capacity (sampler_merge gen s other) = capacity s"
  by (simp add: sampler_merge_def Let_def split: prod.splits)

lemma sampler_merge_seen_count:
  "seen_count (sampler_merge gen s other) = saturating_add (seen_count s) (seen_count other)"
  by (simp add: sampler_merge_def Let_def split: prod.splits)

lemma sampler_merge_inv:
  assumes "sampler_inv s" and "sampler_inv other" and "capacity s \<le> capacity other"
  shows "sampler_inv (sampler_merge gen s other)"
proof (cases "length (sample s) + length (sample other) \<le> unat (capacity s)")
  case True
  have c: "unat (capacity s) \<le> unat (capacity other)"
    using assms(3) by (simp add: word_le_nat_alt)
  have b: "unat (capacity s) < 2 ^ 64"
    using unsigned_less [of "capacity s"] by simp
  have "length (sample s) + length (sample other)
      = min (min (unat (seen_count s) + unat (seen_count other)) (2 ^ 64 - 1)) (unat (capacity s))"
    using assms(1,2) True c b unfolding sampler_inv_def by (simp add: min_def split: if_splits)
  then show ?thesis
    using True by (simp add: sampler_inv_def sampler_merge_def unat_saturating_add)
next
  case False
  then have k: "unat (capacity s) \<le> length (sample s) + length (sample other)" by simp
  have b: "unat (capacity s) < 2 ^ 64"
    using unsigned_less [of "capacity s"] by simp
  have "length (sample s) \<le> unat (seen_count s)" "length (sample other) \<le> unat (seen_count other)"
    using assms(1,2) by (simp_all add: sampler_inv_def)
  then have "unat (capacity s) \<le> min (unat (seen_count s) + unat (seen_count other)) (2 ^ 64 - 1)"
    using k b by simp
  then show ?thesis
    using False length_draw_subset [OF k, of gen "unat (seen_count s)" "unat (seen_count other)" "rng_state s"]
    by (auto simp add: sampler_inv_def sampler_merge_def unat_saturating_add Let_def split: prod.splits)
qed

lemma length_put_bytes [simp]: "length (put_bytes n w) = n"
  by (induction n arbitrary: w) simp_all

lemma get_put_bytes: "get_bytes (put_bytes n w) = take_bit (8 * n) (w :: 'v::len word)"
proof (induction n arbitrary: w)
  case 0
  then show ?case by simp
next
  case (Suc n)
  have "(ucast (ucast w :: byte) :: 'v word) OR push_bit 8 (take_bit (8 * n) (drop_bit 8 w))
      = take_bit (8 * Suc n) w"
    by (rule bit_eqI) (auto simp add: bit_simps)
  then show ?case by (simp add: Suc)
qed

lemma get_put_bytes_full:
  "LENGTH('v) \<le> 8 * n \<Longrightarrow> get_bytes (put_bytes n w) = (w :: 'v::len word)"
  by (simp add: get_put_bytes take_bit_word_eq_self)

lemma length_writeIntBinary [simp]: "length (writeIntBinary x) = 8"
  by (simp add: writeIntBinary_def)

lemma get_writeIntBinary [simp]: "get_bytes (writeIntBinary x) = x"
  by (simp add: writeIntBinary_def get_put_bytes_full)

lemma length_writeBinary [simp]:
  "length (writeBinary (x :: 'v::len word)) = (LENGTH('v) + 7) div 8"
  by (simp add: writeBinary_def)

lemma get_writeBinary [simp]: "get_bytes (writeBinary x) = x"
  by (simp add: writeBinary_def get_put_bytes_full)

lemma value_width_pos: "0 < (LENGTH('v::len) + 7) div 8"
proof -
  have "0 < LENGTH('v)" by simp
  then have "8 \<le> LENGTH('v) + 7" by linarith
  then show ?thesis by (simp only: div_greater_zero_iff) simp
qed

lemma read_values_write:
  "read_values (length vs) ((LENGTH('v) + 7) div 8) (concat (map writeBinary vs) @ rest)
     = Some (vs :: 'v::len word list, rest)"
proof (induction vs)
  case Nil
  then show ?case by simp
next
  case (Cons v vs)
  have "0 < (LENGTH('v) + 7) div 8" by (rule value_width_pos)
  then show ?case using Cons by simp
qed

lemma sampler_read_write:
  assumes "sampler_inv s"
  shows "sampler_read place (sampler_write s @ rest)
           = Inr (place\<lparr>capacity := capacity s, seen_count := seen_count s, sample := sample s\<rparr>, rest)"
proof -
  have L: "min (unat (seen_count s)) (unat (capacity s)) = length (sample s)"
    using assms by (simp add: sampler_inv_def)
  then have "length (sample s) \<le> unat (capacity s)"
    by linarith
  moreover have "unat (capacity s) < 2 ^ 64"
    using unsigned_less [of "capacity s"] by simp
  ultimately have len: "unat (word_of_nat (length (sample s)) :: UInt64) = length (sample s)"
    by (simp add: unat_of_nat)
  show ?thesis
    unfolding sampler_read_def sampler_write_def
    by (simp add: Let_def len L read_values_write)
qed

lemma sort_key_twice: "sort_key f (sort_key f xs) = sort_key f xs"
  by (simp add: sort_key_id_if_sorted)

lemma quantileInterpolated_fst:
  "fst (quantileInterpolated kind l s) = quantile_of_sorted kind (sort_key (to_double kind) (sample s)) l"
  by (simp add: quantileInterpolated_def Let_def)

lemma quantileInterpolated_snd:
  "snd (quantileInterpolated kind l s) = s\<lparr>sample := sort_key (to_double kind) (sample s)\<rparr>"
  by (simp add: quantileInterpolated_def Let_def)

lemma insertResultInto_loop_eq:
  "insertResultInto_loop kind rf ls place data_to =
     ((if ls = [] then place else place\<lparr>sample := sort_key (to_double kind) (sample place)\<rparr>),
      data_to @ map (\<lambda>l. pushed_value kind rf
                       (quantile_of_sorted kind (sort_key (to_double kind) (sample place)) l)) ls)"
proof (induction ls arbitrary: place data_to)
  case Nil
  then show ?case by simp
next
  case (Cons l ls)
  show ?case
    by (simp add: Cons quantileInterpolated_def Let_def sort_key_twice)
qed

lemma isNumeric_convert: "isNumeric p \<longleftrightarrow> (\<exists>x. convertToFloat64 p = Inr x)"
  by (cases p) simp_all

lemma not_isNumeric_convert: "\<not> isNumeric p \<longleftrightarrow> convertToFloat64 p = Inl ParameterTypeError"
  by (cases p) simp_all

lemma convert_Inl: "convertToFloat64 p = Inl e \<Longrightarrow> e = ParameterTypeError \<and> \<not> isNumeric p"
  by (cases p) simp_all

lemma convert_Inr: "convertToFloat64 p = Inr x \<Longrightarrow> isNumeric p"
  by (cases p) simp_all

lemma setParameters_loop_ok:
  "map convertToFloat64 ps = map Inr xs \<Longrightarrow> i + length ps \<le> length ls \<Longrightarrow>
     setParameters_loop ps i ls = Inr (take i ls @ xs @ drop (i + length ps) ls)"
proof (induction ps arbitrary: i ls xs)
  case Nil
  then show ?case by simp
next
  case (Cons p ps)
  then obtain x xs' where xs: "xs = x # xs'" and p: "convertToFloat64 p = Inr x"
    and ps: "map convertToFloat64 ps = map Inr xs'"
    by (cases xs) auto
  have i: "i < length ls" using Cons.prems(2) by simp
  have "setParameters_loop ps (Suc i) (ls[i := x])
      = Inr (take (Suc i) (ls[i := x]) @ xs' @ drop (Suc i + length ps) (ls[i := x]))"
    using Cons.prems(2) by (intro Cons.IH [OF ps]) simp
  also have "take (Suc i) (ls[i := x]) = take i ls @ [x]"
    using i by (simp add: take_Suc_conv_app_nth)
  also have "drop (Suc i + length ps) (ls[i := x]) = drop (i + length (p # ps)) ls"
    by simp
  finally show ?case by (simp add: p xs)
qed

lemma setParameters_loop_fail:
  "\<not> list_all isNumeric ps \<Longrightarrow> setParameters_loop ps i ls = Inl ParameterTypeError"
proof (induction ps arbitrary: i ls)
  case Nil
  then show ?case by simp
next
  case (Cons p ps)
  show ?case
  proof (cases "isNumeric p")
    case True
    then obtain x where x: "convertToFloat64 p = Inr x"
      using isNumeric_convert by blast
    from True Cons.prems have "\<not> list_all isNumeric ps" by simp
    then show ?thesis by (simp add: x Cons.IH)
  next
    case False
    then have "convertToFloat64 p = Inl ParameterTypeError"
      by (simp add: not_isNumeric_convert)
    then show ?thesis by simp
  qed
qed

lemma all_numeric_values:
  "list_all isNumeric ps \<Longrightarrow> \<exists>xs. map convertToFloat64 ps = map Inr xs"
proof (induction ps)
  case Nil
  then show ?case by simp
next
  case (Cons p ps)
  then obtain xs x where "map convertToFloat64 ps = map Inr xs" "convertToFloat64 p = Inr x"
    by (auto simp add: isNumeric_convert)
  then have "map convertToFloat64 (p # ps) = map Inr (x # xs)" by simp
  then show ?case by blast
qed

lemma length_resize [simp]: "length (resize n xs) = n"
  by (simp add: resize_def)

lemma Quantiles_setParameters_ok:
  assumes "params \<noteq> []" and "map convertToFloat64 params = map Inr xs"
  shows "Quantiles_setParameters params f = Inr (f\<lparr>levels := xs\<rparr>)"
proof -
  have "length xs = length params"
    using assms(2) by (metis length_map)
  then have "setParameters_loop params 0 (resize (length params) (levels f)) = Inr xs"
    using setParameters_loop_ok [OF assms(2), of 0 "resize (length params) (levels f)"] by simp
  then show ?thesis
    using assms(1) by (simp add: Quantiles_setParameters_def)
qed

lemma Quantiles_setParameters_fail:
  assumes "params \<noteq> []" and "\<not> list_all isNumeric params"
  shows "Quantiles_setParameters params f = Inl ParameterTypeError"
  using assms by (simp add: Quantiles_setParameters_def setParameters_loop_fail)

lemma Quantiles_insertResultInto_eq:
  "Quantiles_insertResultInto kind rf f place to =
     ((if levels f = [] then place else place\<lparr>sample := sort_key (to_double kind) (sample place)\<rparr>),
      \<lparr>offsets = offsets to @ [last_offset to + word_of_nat (length (levels f))],
       data = data to @ map (\<lambda>l. pushed_value kind rf
                (quantile_of_sorted kind (sort_key (to_double kind) (sample place)) l)) (levels f)\<rparr>)"
  by (simp add: Quantiles_insertResultInto_def insertResultInto_loop_eq last_offset_def Let_def)

lemma unat_offset_add:
  "unat (x :: UInt64) + n < 2 ^ 64 \<Longrightarrow> unat (x + word_of_nat n) = unat x + n"
  by (simp add: unat_word_ariths unat_of_nat)

lemma insertResultInto_all_consistent:
  "column_consistent to \<Longrightarrow> length (data to) + length places * length (levels f) < 2 ^ 64 \<Longrightarrow>
     column_consistent (insertResultInto_all kind rf f places to)
     \<and> length (offsets (insertResultInto_all kind rf f places to)) = length (offsets to) + length places
     \<and> length (data (insertResultInto_all kind rf f places to))
         = length (data to) + length places * length (levels f)"
proof (induction places arbitrary: to)
  case Nil
  then show ?case by simp
next
  case (Cons place places)
  let ?to = "snd (Quantiles_insertResultInto kind rf f place to)"
  have b: "length (data to) + length (levels f) < 2 ^ 64"
    using Cons.prems(2) by simp
  then have "unat (last_offset to + word_of_nat (length (levels f))) = length (data to) + length (levels f)"
    using Cons.prems(1) unat_offset_add [of "last_offset to" "length (levels f)"]
    by (simp add: column_consistent_def)
  then have c: "column_consistent ?to"
    by (simp add: Quantiles_insertResultInto_eq column_consistent_def last_offset_def)
  have "length (data ?to) + length places * length (levels f) < 2 ^ 64"
    using Cons.prems(2) by (simp add: Quantiles_insertResultInto_eq add.assoc)
  from Cons.IH [OF c this] show ?case
    by (simp add: Quantiles_insertResultInto_eq)
qed


lemma put_bytes_numeral:
  "put_bytes (numeral n) w = ucast w # put_bytes (pred_numeral n) (drop_bit 8 w)"
  by (simp add: numeral_eq_Suc)

lemma new_Inr:
  "ReservoirSampler_new k seed = Inr s0 \<Longrightarrow>
     k \<noteq> 0 \<and> capacity s0 = k \<and> seen_count s0 = 0 \<and> sample s0 = [] \<and> rng_state s0 = seed"
  by (auto simp add: ReservoirSampler_new_def split: if_splits)

lemma insert_all_from_new:
  assumes "ReservoirSampler_new k seed = Inr s0"
  shows "sampler_inv s0"
    and "sampler_inv (insert_all gen vs s0)"
    and "length (sample (insert_all gen vs s0)) = min (length vs) (unat k)"
    and "unat (seen_count (insert_all gen vs s0)) = min (length vs) (2 ^ 64 - 1)"
proof -
  have f: "capacity s0 = k" "seen_count s0 = 0" "sample s0 = []"
    using new_Inr [OF assms] by simp_all
  show i0: "sampler_inv s0"
    using f by (simp add: sampler_inv_def)
  show i: "sampler_inv (insert_all gen vs s0)"
    using i0 by (rule insert_all_inv)
  show sc: "unat (seen_count (insert_all gen vs s0)) = min (length vs) (2 ^ 64 - 1)"
    using f by (simp add: insert_all_seen_count)
  have "unat k < 2 ^ 64"
    using unsigned_less [of k] by simp
  then show "length (sample (insert_all gen vs s0)) = min (length vs) (unat k)"
    using i sc f by (simp add: sampler_inv_def)
qed

lemma cell_state_inv:
  "cell_state gen k h = Inr place \<Longrightarrow> sampler_inv place \<and> capacity place = k"
proof (induction h arbitrary: place)
  case (Created seed)
  then have n: "ReservoirSampler_new k seed = Inr place"
    by simp
  have "capacity place = k" "seen_count place = 0" "sample place = []"
    using new_Inr [OF n] by simp_all
  then show ?case
    by (simp add: sampler_inv_def)
next
  case (Added v h)
  show ?case
  proof (cases "cell_state gen k h")
    case (Inl e)
    with Added.prems show ?thesis by simp
  next
    case (Inr p)
    with Added.prems have e: "place = sampler_insert gen v p" by simp
    from Added.IH [OF Inr] show ?thesis
      by (simp add: e sampler_insert_inv)
  qed
next
  case (Combined h1 h2)
  show ?case
  proof (cases "cell_state gen k h1")
    case (Inl e)
    with Combined.prems show ?thesis by simp
  next
    case p: (Inr p)
    show ?thesis
    proof (cases "cell_state gen k h2")
      case (Inl e)
      with p Combined.prems show ?thesis by simp
    next
      case r: (Inr r)
      with p Combined.prems have e: "place = merge gen p r" by simp
      from Combined.IH(1) [OF p] Combined.IH(2) [OF r] show ?thesis
        by (simp add: e merge_def sampler_merge_inv)
    qed
  qed
qed

section \<open>The claims\<close>

text \<open>
  Claim C1, as amended. Finalization leaves \<open>capacity\<close>, \<open>seen_count\<close>, the generator
  state and the multiset of the sample as they were, for \<^verbatim>\<open>quantile\<close> and for
  \<^verbatim>\<open>quantiles\<close>. It does not work on a private snapshot: the buffer of the cell itself is
  sorted, and is left in sorted order (by \<^verbatim>\<open>quantiles\<close> as soon as there is a level).
\<close>

theorem finalize_sorts_live_buffer:
  "capacity (fst (Quantile_insertResultInto kind returns_float f place to)) = capacity place
   \<and> seen_count (fst (Quantile_insertResultInto kind returns_float f place to)) = seen_count place
   \<and> rng_state (fst (Quantile_insertResultInto kind returns_float f place to)) = rng_state place
   \<and> mset (sample (fst (Quantile_insertResultInto kind returns_float f place to))) = mset (sample place)
   \<and> sample (fst (Quantile_insertResultInto kind returns_float f place to))
       = sort_key (to_double kind) (sample place)
   \<and> capacity (fst (Quantiles_insertResultInto kind returns_float g place tos)) = capacity place
   \<and> seen_count (fst (Quantiles_insertResultInto kind returns_float g place tos)) = seen_count place
   \<and> rng_state (fst (Quantiles_insertResultInto kind returns_float g place tos)) = rng_state place
   \<and> mset (sample (fst (Quantiles_insertResultInto kind returns_float g place tos))) = mset (sample place)
   \<and> (levels g \<noteq> [] \<longrightarrow>
        sample (fst (Quantiles_insertResultInto kind returns_float g place tos))
          = sort_key (to_double kind) (sample place))"
  by (simp add: Quantile_insertResultInto_def quantileInterpolated_def Let_def
      Quantiles_insertResultInto_eq)

theorem finalize_sorts_live_buffer_witness:
  "levels \<lparr>levels = [1 / 2], type = None\<rparr> \<noteq> []
   \<and> sample (fst (Quantiles_insertResultInto Int64_kind True \<lparr>levels = [1 / 2], type = None\<rparr>
         \<lparr>capacity = 3, seen_count = 3, sample = [3, 1, 2], rng_state = 0 :: nat\<rparr>
         \<lparr>offsets = [], data = []\<rparr>))
     = [1, 2, 3]"
  using finalize_sorts_live_buffer [of Int64_kind True _ 
      "\<lparr>capacity = 3, seen_count = 3, sample = [3, 1, 2], rng_state = 0 :: nat\<rparr>" _
      "\<lparr>levels = [1 / 2], type = None\<rparr>" "\<lparr>offsets = [], data = []\<rparr>"]
  by (simp add: Int64_kind_def)

text \<open>
  Claim C1 as stated fails: after finalization the buffer of the cell is not the buffer it
  was, and an insert that follows keeps other values than it would have kept.
\<close>

theorem finalize_changes_live_buffer:
  "sample (fst (Quantile_insertResultInto Int64_kind True AggregateFunctionQuantile_default
      \<lparr>capacity = 3, seen_count = 3, sample = [3, 1, 2], rng_state = 0 :: nat\<rparr> []))
     = [1, 2, 3]
   \<and> sample (sampler_insert lcg 9
        (fst (Quantile_insertResultInto Int64_kind True AggregateFunctionQuantile_default
          \<lparr>capacity = 3, seen_count = 3, sample = [3, 1, 2], rng_state = 0 :: nat\<rparr> [])))
     = [9, 2, 3]
   \<and> sample (sampler_insert lcg 9
          \<lparr>capacity = 3, seen_count = 3, sample = [3, 1, 2 :: int], rng_state = 0 :: nat\<rparr>)
     = [9, 1, 2]
   \<and> mset [9, 2, 3 :: int] \<noteq> mset [9, 1, 2]"
proof -
  have "count (mset [9, 2, 3 :: int]) 1 \<noteq> count (mset [9, 1, 2]) 1" by simp
  then have "mset [9, 2, 3 :: int] \<noteq> mset [9, 1, 2]" by metis
  then show ?thesis
    by (simp add: Quantile_insertResultInto_def quantileInterpolated_def Let_def Int64_kind_def
        sampler_insert_def saturating_add_def lcg_def)
qed

text \<open>
  Claim C2, as amended. \<^verbatim>\<open>setParameters\<close> makes no range check: every numeric parameter
  is converted and stored as the level, whatever its value, by \<^verbatim>\<open>quantile\<close> and by
  \<^verbatim>\<open>quantiles\<close> (in the order of the parameters).
\<close>

theorem setParameters_no_range_check:
  "(convertToFloat64 p = Inr x \<longrightarrow> Quantile_setParameters [p] f = Inr (f\<lparr>level := x\<rparr>))
   \<and> (params \<noteq> [] \<and> map convertToFloat64 params = map Inr xs
        \<longrightarrow> Quantiles_setParameters params g = Inr (g\<lparr>levels := xs\<rparr>))"
  by (simp add: Quantile_setParameters_def Quantiles_setParameters_ok)

theorem setParameters_no_range_check_witness:
  "Quantile_setParameters [Float64 (3 / 2)] AggregateFunctionQuantile_default
     = Inr (AggregateFunctionQuantile_default\<lparr>level := 3 / 2\<rparr>)
   \<and> Quantiles_setParameters [Float64 (9 / 10), UInt64 2, Int64 (- 1)] \<lparr>levels = [], type = None\<rparr>
     = Inr \<lparr>levels = [9 / 10, 2, - 1], type = None\<rparr>"
  using setParameters_no_range_check [of "Float64 (3 / 2)" "3 / 2" AggregateFunctionQuantile_default
      "[Float64 (9 / 10), UInt64 2, Int64 (- 1)]" "[9 / 10, 2, - 1]" "\<lparr>levels = [], type = None\<rparr>"]
  by simp

text \<open>
  Claim C2 as stated fails: the levels \<open>3/2\<close>, \<open>-1\<close> and \<open>2\<close> are outside \<open>[0,1]\<close>, and
  configuration succeeds and stores them.
\<close>

theorem out_of_range_level_stored:
  "Quantile_setParameters [Float64 (3 / 2)] AggregateFunctionQuantile_default
     = Inr \<lparr>level = 3 / 2, type = None\<rparr>
   \<and> \<not> (3 / 2 :: real) \<le> 1
   \<and> Quantiles_setParameters [Int64 (- 1), UInt64 2] \<lparr>levels = [], type = None\<rparr>
     = Inr \<lparr>levels = [- 1, 2], type = None\<rparr>
   \<and> \<not> (0 :: real) \<le> - 1"
  by (simp add: Quantile_setParameters_def Quantiles_setParameters_def resize_def
      AggregateFunctionQuantile_default_def AggregateFunctionQuantile_init_def)

text \<open>
  Claim C3. \<^verbatim>\<open>quantiles\<close> appends one result per configured level, in the configured
  order; all of them are read off the same sorted sequence of the sample, and the result at
  position \<open>i\<close> is the quantile at level \<open>i\<close>, as \<^verbatim>\<open>push_back\<close> stores it.
\<close>

theorem quantiles_in_configured_order:
  "data (snd (Quantiles_insertResultInto kind returns_float f place to))
     = data to @ map (\<lambda>l. pushed_value kind returns_float
                       (quantile_of_sorted kind (sort_key (to_double kind) (sample place)) l))
                     (levels f)
   \<and> length (data (snd (Quantiles_insertResultInto kind returns_float f place to)))
     = length (data to) + length (levels f)
   \<and> (\<forall>i < length (levels f).
        data (snd (Quantiles_insertResultInto kind returns_float f place to)) ! (length (data to) + i)
          = pushed_value kind returns_float (fst (quantileInterpolated kind (levels f ! i) place)))"
  by (simp add: Quantiles_insertResultInto_eq quantileInterpolated_fst nth_append)

theorem quantiles_in_configured_order_witness:
  "(1 :: nat) < length [9 / 10, 1 / 10, 1 / 2 :: real]
   \<and> data (snd (Quantiles_insertResultInto Int64_kind True \<lparr>levels = [9 / 10, 1 / 10, 1 / 2], type = None\<rparr>
        \<lparr>capacity = 16, seen_count = 11, sample = [6, 2, 11, 4, 9, 1, 8, 3, 10, 5, 7], rng_state = 0 :: nat\<rparr>
        \<lparr>offsets = [1], data = [Val 0]\<rparr>))
     = [Val 0, Val 10, Val 2, Val 6]
   \<and> data (snd (Quantiles_insertResultInto Int64_kind True \<lparr>levels = [9 / 10, 1 / 10, 1 / 2], type = None\<rparr>
        \<lparr>capacity = 16, seen_count = 11, sample = [6, 2, 11, 4, 9, 1, 8, 3, 10, 5, 7], rng_state = 0 :: nat\<rparr>
        \<lparr>offsets = [1], data = [Val 0]\<rparr>)) ! (length [Val 0] + 1)
     = Val 2"
proof -
  let ?f = "\<lparr>levels = [9 / 10, 1 / 10, 1 / 2], type = None\<rparr>"
  let ?place = "\<lparr>capacity = 16, seen_count = 11, sample = [6, 2, 11, 4, 9, 1, 8, 3, 10, 5, 7 :: int],
                 rng_state = 0 :: nat\<rparr>"
  let ?to = "\<lparr>offsets = [1], data = [Val 0]\<rparr>"
  note T = quantiles_in_configured_order [of Int64_kind True ?f ?place ?to]
  have d: "data (snd (Quantiles_insertResultInto Int64_kind True ?f ?place ?to))
     = data ?to @ map (\<lambda>l. pushed_value Int64_kind True
                       (quantile_of_sorted Int64_kind (sort_key (to_double Int64_kind) (sample ?place)) l))
                     (levels ?f)"
    using T by (rule conjunct1)
  have v: "data (snd (Quantiles_insertResultInto Int64_kind True ?f ?place ?to))
     = [Val 0, Val 10, Val 2, Val 6]"
    unfolding d
    by (simp add: pushed_value_def quantile_of_sorted_def interpolate_def clamp_level_def
        Int64_kind_def Let_def)
  have i: "(1 :: nat) < length (levels ?f)"
    by simp
  from T have "\<forall>i < length (levels ?f).
        data (snd (Quantiles_insertResultInto Int64_kind True ?f ?place ?to)) ! (length (data ?to) + i)
          = pushed_value Int64_kind True (fst (quantileInterpolated Int64_kind (levels ?f ! i) ?place))"
    by (rule conjunct2 [THEN conjunct2])
  with i have "data (snd (Quantiles_insertResultInto Int64_kind True ?f ?place ?to)) ! (length (data ?to) + 1)
          = pushed_value Int64_kind True (fst (quantileInterpolated Int64_kind (levels ?f ! 1) ?place))"
    by blast
  then have "data (snd (Quantiles_insertResultInto Int64_kind True ?f ?place ?to)) ! (length [Val 0] + 1)
          = Val 2"
    by (simp add: v)
  with v show ?thesis
    by simp
qed

text \<open>
  Claim C4. For a sampler state (one that satisfies the invariant of the data model),
  deserializing the bytes of its serialization gives a state with the same \<open>capacity\<close>,
  the same \<open>seen_count\<close> and the same sample, in the same order; the bytes that follow stay
  in the buffer.
\<close>

theorem serialize_roundtrip:
  "sampler_inv s \<Longrightarrow>
     \<exists>s'. deserialize place (serialize s @ rest) = Inr (s', rest)
        \<and> capacity s' = capacity s \<and> seen_count s' = seen_count s
        \<and> mset (sample s') = mset (sample s) \<and> sample s' = sample s
        \<and> rng_state s' = rng_state place"
  by (simp add: deserialize_def serialize_def sampler_read_write)

theorem serialize_roundtrip_witness:
  "sampler_inv \<lparr>capacity = 3, seen_count = 5, sample = [513, 1, 65535 :: 16 word], rng_state = 7 :: nat\<rparr>
   \<and> serialize \<lparr>capacity = 3, seen_count = 5, sample = [513, 1, 65535 :: 16 word], rng_state = 7 :: nat\<rparr>
      = [3, 0, 0, 0, 0, 0, 0, 0, 5, 0, 0, 0, 0, 0, 0, 0, 3, 0, 0, 0, 0, 0, 0, 0, 1, 2, 1, 0, 255, 255]
   \<and> deserialize \<lparr>capacity = 1, seen_count = 0, sample = [], rng_state = 9 :: nat\<rparr>
        [3, 0, 0, 0, 0, 0, 0, 0, 5, 0, 0, 0, 0, 0, 0, 0, 3, 0, 0, 0, 0, 0, 0, 0, 1, 2, 1, 0, 255, 255]
      = Inr (\<lparr>capacity = 3, seen_count = 5, sample = [513, 1, 65535 :: 16 word], rng_state = 9\<rparr>, [])"
proof -
  let ?s = "\<lparr>capacity = 3, seen_count = 5, sample = [513, 1, 65535 :: 16 word], rng_state = 7 :: nat\<rparr>"
  let ?place = "\<lparr>capacity = 1, seen_count = 0, sample = [] :: 16 word list, rng_state = 9 :: nat\<rparr>"
  have i: "sampler_inv ?s"
    by (simp add: sampler_inv_def)
  have w: "serialize ?s
      = [3, 0, 0, 0, 0, 0, 0, 0, 5, 0, 0, 0, 0, 0, 0, 0, 3, 0, 0, 0, 0, 0, 0, 0, 1, 2, 1, 0, 255, 255]"
    by (simp add: serialize_def sampler_write_def writeIntBinary_def writeBinary_def
        put_bytes_numeral)
  from serialize_roundtrip [OF i, of ?place "[]"]
  obtain s' where d: "deserialize ?place (serialize ?s @ []) = Inr (s', [])"
    and p: "capacity s' = 3" "seen_count s' = 5" "sample s' = [513, 1, 65535]" "rng_state s' = 9"
    by auto
  have "s' = \<lparr>capacity = 3, seen_count = 5, sample = [513, 1, 65535 :: 16 word], rng_state = 9\<rparr>"
    using p by (cases s') simp
  with d have "deserialize ?place (serialize ?s)
      = Inr (\<lparr>capacity = 3, seen_count = 5, sample = [513, 1, 65535 :: 16 word], rng_state = 9\<rparr>, [])"
    by simp
  then show ?thesis
    using i by (simp add: w)
qed

text \<open>
  Claim C5. The invariant \<open>|sample| = min(seen_count, capacity)\<close> is kept by every insert
  and by every merge of cells of one function, whose samplers have one capacity (the merge
  lemma asks no more than a capacity that is not smaller); so it holds, with the capacity
  unchanged, in every state that a cell comes to. After \<open>n\<close> inserts into a new sampler of
  capacity \<open>k\<close> the sample has \<open>min(n, k)\<close> elements; after \<open>k + 1\<close> inserts, a number of
  values that \<open>seen_count\<close> can hold, the sample has \<open>k\<close> elements and \<open>seen_count\<close> is
  \<open>k + 1\<close>.
\<close>

theorem sample_size_invariant:
  "(sampler_inv s \<longrightarrow> sampler_inv (sampler_insert gen v s))
   \<and> (sampler_inv s \<and> addImpl gen s column row_num = Some s' \<longrightarrow> sampler_inv s')
   \<and> (sampler_inv s \<and> sampler_inv other \<and> capacity s \<le> capacity other
        \<longrightarrow> sampler_inv (merge gen s other))
   \<and> (cell_state gen k h = Inr place \<longrightarrow> sampler_inv place \<and> capacity place = k)
   \<and> (ReservoirSampler_new k seed = Inr s0
        \<longrightarrow> sampler_inv (insert_all gen vs s0)
            \<and> length (sample (insert_all gen vs s0)) = min (length vs) (unat k)
            \<and> unat (seen_count (insert_all gen vs s0)) = min (length vs) (2 ^ 64 - 1))
   \<and> (ReservoirSampler_new k seed = Inr s0 \<and> length vs = unat k + 1 \<and> length vs < 2 ^ 64
        \<longrightarrow> length (sample (insert_all gen vs s0)) = unat k
            \<and> seen_count (insert_all gen vs s0) = k + 1)"
proof -
  have a: "sampler_inv s \<and> addImpl gen s column row_num = Some s' \<longrightarrow> sampler_inv s'"
    by (auto simp add: addImpl_def sampler_insert_inv split: if_splits)
  have m: "sampler_inv s \<and> sampler_inv other \<and> capacity s \<le> capacity other
        \<longrightarrow> sampler_inv (merge gen s other)"
    by (simp add: merge_def sampler_merge_inv)
  have l: "length (sample (insert_all gen vs s0)) = unat k
            \<and> seen_count (insert_all gen vs s0) = k + 1"
    if n: "ReservoirSampler_new k seed = Inr s0" and len: "length vs = unat k + 1"
      and b: "length vs < 2 ^ 64"
  proof -
    have "unat (seen_count (insert_all gen vs s0)) = unat k + 1"
      using insert_all_from_new(4) [OF n, of gen vs] len b by simp
    also have "unat k + 1 = unat (k + 1)"
      using b len by (simp add: unat_word_ariths)
    finally have "seen_count (insert_all gen vs s0) = k + 1"
      by (simp add: word_unat_eq_iff)
    then show ?thesis
      using insert_all_from_new(3) [OF n, of gen vs] len by simp
  qed
  have n: "ReservoirSampler_new k seed = Inr s0
        \<longrightarrow> sampler_inv (insert_all gen vs s0)
            \<and> length (sample (insert_all gen vs s0)) = min (length vs) (unat k)
            \<and> unat (seen_count (insert_all gen vs s0)) = min (length vs) (2 ^ 64 - 1)"
    using insert_all_from_new(2,3,4) [of k seed s0 gen vs] by blast
  have i: "sampler_inv s \<longrightarrow> sampler_inv (sampler_insert gen v s)"
    by (simp add: sampler_insert_inv)
  have c: "cell_state gen k h = Inr place \<longrightarrow> sampler_inv place \<and> capacity place = k"
    using cell_state_inv [of gen k h place] by blast
  from i a m c n l show ?thesis
    by blast
qed

theorem sample_size_invariant_witness:
  "ReservoirSampler_new 2 (0 :: nat)
     = Inr \<lparr>capacity = 2, seen_count = 0, sample = [] :: int list, rng_state = 0\<rparr>
   \<and> length [10, 20, 30 :: int] = unat (2 :: UInt64) + 1 \<and> length [10, 20, 30 :: int] < 2 ^ 64
   \<and> length (sample (insert_all lcg [10, 20, 30 :: int]
         \<lparr>capacity = 2, seen_count = 0, sample = [], rng_state = 0\<rparr>)) = 2
   \<and> seen_count (insert_all lcg [10, 20, 30 :: int]
         \<lparr>capacity = 2, seen_count = 0, sample = [], rng_state = 0\<rparr>) = 3
   \<and> sampler_inv \<lparr>capacity = 3, seen_count = 7, sample = [10, 11, 12 :: int], rng_state = 5 :: nat\<rparr>
   \<and> sampler_inv \<lparr>capacity = 3, seen_count = 5, sample = [1, 2, 3 :: int], rng_state = 5 :: nat\<rparr>
   \<and> sampler_inv (merge lcg
         \<lparr>capacity = 3, seen_count = 7, sample = [10, 11, 12 :: int], rng_state = 5 :: nat\<rparr>
         \<lparr>capacity = 3, seen_count = 5, sample = [1, 2, 3 :: int], rng_state = 5 :: nat\<rparr>)
   \<and> sampler_inv (sampler_insert lcg 4
         \<lparr>capacity = 3, seen_count = 7, sample = [10, 11, 12 :: int], rng_state = 5 :: nat\<rparr>)
   \<and> cell_state lcg 2 (Combined (Added 3 (Added 2 (Added (1 :: int) (Created (0 :: nat)))))
                            (Added 5 (Added 4 (Created 1))))
       = Inr (merge lcg \<lparr>capacity = 2, seen_count = 3, sample = [3, 2], rng_state = 74\<rparr>
                        \<lparr>capacity = 2, seen_count = 2, sample = [4, 5], rng_state = 1\<rparr>)
   \<and> sampler_inv (merge lcg \<lparr>capacity = 2, seen_count = 3, sample = [3, 2 :: int], rng_state = 74\<rparr>
                        \<lparr>capacity = 2, seen_count = 2, sample = [4, 5], rng_state = 1\<rparr>)"
proof -
  let ?s0 = "\<lparr>capacity = 2, seen_count = 0, sample = [] :: int list, rng_state = 0 :: nat\<rparr>"
  let ?a = "\<lparr>capacity = 3, seen_count = 7, sample = [10, 11, 12 :: int], rng_state = 5 :: nat\<rparr>"
  let ?b = "\<lparr>capacity = 3, seen_count = 5, sample = [1, 2, 3 :: int], rng_state = 5 :: nat\<rparr>"
  let ?h = "Combined (Added 3 (Added 2 (Added (1 :: int) (Created (0 :: nat)))))
                     (Added 5 (Added 4 (Created 1)))"
  let ?m = "merge lcg \<lparr>capacity = 2, seen_count = 3, sample = [3, 2 :: int], rng_state = 74 :: nat\<rparr>
                      \<lparr>capacity = 2, seen_count = 2, sample = [4, 5], rng_state = 1\<rparr>"
  have n: "ReservoirSampler_new 2 (0 :: nat) = Inr ?s0"
    by (simp add: ReservoirSampler_new_def)
  have l: "length [10, 20, 30 :: int] = unat (2 :: UInt64) + 1" "length [10, 20, 30 :: int] < 2 ^ 64"
    by simp_all
  have i: "sampler_inv ?a" "sampler_inv ?b"
    by (simp_all add: sampler_inv_def)
  have c: "capacity ?a \<le> capacity ?b"
    by simp
  have h: "cell_state lcg 2 ?h = Inr ?m"
    by (simp add: ReservoirSampler_new_def sampler_insert_def saturating_add_def lcg_def)
  note T = sample_size_invariant [where s = ?a and gen = lcg and v = 4 and other = ?b and k = 2
      and seed = "0 :: nat" and ?s0.0 = ?s0 and vs = "[10, 20, 30]" and h = ?h and place = ?m]
  from T n l have "length (sample (insert_all lcg [10, 20, 30] ?s0)) = unat (2 :: UInt64)
      \<and> seen_count (insert_all lcg [10, 20, 30] ?s0) = 2 + 1"
    by blast
  moreover from T i c have "sampler_inv (merge lcg ?a ?b)"
    by blast
  moreover from T i have "sampler_inv (sampler_insert lcg 4 ?a)"
    by blast
  moreover from T h have "sampler_inv ?m"
    by blast
  ultimately show ?thesis
    using n l i h by simp
qed


text \<open>
  Claim C7. After \<^verbatim>\<open>setArgument\<close>, the declared result type of \<^verbatim>\<open>quantile\<close> is
  \<^verbatim>\<open>Float64\<close> when \<^verbatim>\<open>returns_float\<close> holds and the argument type otherwise; the one of
  \<^verbatim>\<open>quantiles\<close> is the array of that type.
\<close>

theorem declared_result_type:
  "Quantile_getReturnType (Quantile_setArgument True argument f) = Some DataTypeFloat64
   \<and> Quantile_getReturnType (Quantile_setArgument False argument f) = argument
   \<and> Quantiles_getReturnType (Quantiles_setArgument True argument g)
       = Some (DataTypeArray (Some DataTypeFloat64))
   \<and> Quantiles_getReturnType (Quantiles_setArgument False argument g)
       = Some (DataTypeArray argument)"
  by (simp add: Quantile_getReturnType_def Quantile_setArgument_def
      Quantiles_getReturnType_def Quantiles_setArgument_def)

text \<open>
  Claim C8, as amended. \<^verbatim>\<open>setParameters\<close> fails with
  \<^verbatim>\<open>NUMBER_OF_ARGUMENTS_DOESNT_MATCH\<close> exactly when the number of parameters is wrong (not
  one for \<^verbatim>\<open>quantile\<close>, zero for \<^verbatim>\<open>quantiles\<close>); with the right number it fails, with a
  parameter-type error, exactly when a parameter is not numeric; otherwise it succeeds, and
  stores the converted levels in order and changes nothing else.
\<close>

theorem setParameters_failures:
  "(Quantile_setParameters params f = Inl NUMBER_OF_ARGUMENTS_DOESNT_MATCH \<longleftrightarrow> length params \<noteq> 1)
   \<and> (Quantile_setParameters params f = Inl ParameterTypeError
        \<longleftrightarrow> length params = 1 \<and> \<not> isNumeric (params ! 0))
   \<and> (Quantile_setParameters params f = Inr f'
        \<longleftrightarrow> length params = 1 \<and> convertToFloat64 (params ! 0) = Inr (level f')
            \<and> f' = f\<lparr>level := level f'\<rparr>)
   \<and> (Quantiles_setParameters params g = Inl NUMBER_OF_ARGUMENTS_DOESNT_MATCH \<longleftrightarrow> params = [])
   \<and> (Quantiles_setParameters params g = Inl ParameterTypeError
        \<longleftrightarrow> params \<noteq> [] \<and> \<not> list_all isNumeric params)
   \<and> (Quantiles_setParameters params g = Inr g'
        \<longleftrightarrow> params \<noteq> [] \<and> map convertToFloat64 params = map Inr (levels g')
            \<and> g' = g\<lparr>levels := levels g'\<rparr>)"
proof -
  have s1: "Quantile_setParameters params f = Inl NUMBER_OF_ARGUMENTS_DOESNT_MATCH \<longleftrightarrow> length params \<noteq> 1"
    by (cases "convertToFloat64 (params ! 0)")
      (auto simp add: Quantile_setParameters_def dest: convert_Inl)
  have s2: "Quantile_setParameters params f = Inl ParameterTypeError
        \<longleftrightarrow> length params = 1 \<and> \<not> isNumeric (params ! 0)"
    by (cases "convertToFloat64 (params ! 0)")
      (auto simp add: Quantile_setParameters_def dest: convert_Inl convert_Inr)
  have s3: "Quantile_setParameters params f = Inr f'
        \<longleftrightarrow> length params = 1 \<and> convertToFloat64 (params ! 0) = Inr (level f')
            \<and> f' = f\<lparr>level := level f'\<rparr>"
    by (auto simp add: Quantile_setParameters_def split: sum.splits)
  have m1: "Quantiles_setParameters params g = Inl NUMBER_OF_ARGUMENTS_DOESNT_MATCH \<longleftrightarrow> params = []"
  proof (cases "params = []")
    case True
    then show ?thesis by (simp add: Quantiles_setParameters_def)
  next
    case False
    show ?thesis
    proof (cases "list_all isNumeric params")
      case True
      then obtain xs where "map convertToFloat64 params = map Inr xs"
        using all_numeric_values by blast
      then show ?thesis
        using False by (simp add: Quantiles_setParameters_ok)
    next
      case nn: False
      then show ?thesis
        using False by (simp add: Quantiles_setParameters_fail)
    qed
  qed
  have m2: "Quantiles_setParameters params g = Inl ParameterTypeError
        \<longleftrightarrow> params \<noteq> [] \<and> \<not> list_all isNumeric params"
  proof (cases "params = []")
    case True
    then show ?thesis by (simp add: Quantiles_setParameters_def)
  next
    case False
    show ?thesis
    proof (cases "list_all isNumeric params")
      case True
      then obtain xs where "map convertToFloat64 params = map Inr xs"
        using all_numeric_values by blast
      then show ?thesis
        using False True by (simp add: Quantiles_setParameters_ok)
    next
      case nn: False
      then show ?thesis
        using False by (simp add: Quantiles_setParameters_fail)
    qed
  qed
  have m3: "Quantiles_setParameters params g = Inr g'
        \<longleftrightarrow> params \<noteq> [] \<and> map convertToFloat64 params = map Inr (levels g')
            \<and> g' = g\<lparr>levels := levels g'\<rparr>"
  proof (cases "params = []")
    case True
    then show ?thesis by (simp add: Quantiles_setParameters_def)
  next
    case False
    show ?thesis
    proof (cases "list_all isNumeric params")
      case True
      then obtain xs where xs: "map convertToFloat64 params = map Inr xs"
        using all_numeric_values by blast
      have "Quantiles_setParameters params g = Inr (g\<lparr>levels := xs\<rparr>)"
        using False xs by (rule Quantiles_setParameters_ok)
      moreover have "map Inr xs = map Inr ys \<Longrightarrow> xs = ys" for ys :: "real list"
        by simp
      ultimately show ?thesis
        using False xs by auto
    next
      case nn: False
      have "\<not> list_all isNumeric params" by (rule nn)
      moreover have "map convertToFloat64 params = map Inr ys \<Longrightarrow> list_all isNumeric params" for ys
      proof (induction params arbitrary: ys)
        case Nil
        then show ?case by simp
      next
        case (Cons p ps)
        then show ?case by (cases ys) (auto simp add: isNumeric_convert)
      qed
      ultimately show ?thesis
        using False by (auto simp add: Quantiles_setParameters_fail)
    qed
  qed
  from s1 s2 s3 m1 m2 m3 show ?thesis by blast
qed

theorem setParameters_failures_witness:
  "length [String ''median''] = 1 \<and> \<not> isNumeric ([String ''median''] ! 0)
   \<and> Quantile_setParameters [String ''median''] AggregateFunctionQuantile_default
       = Inl ParameterTypeError
   \<and> length [Float64 (1 / 4)] = 1
   \<and> Quantile_setParameters [Float64 (1 / 4)] AggregateFunctionQuantile_default
       = Inr \<lparr>level = 1 / 4, type = None\<rparr>
   \<and> Quantile_setParameters [] AggregateFunctionQuantile_default
       = Inl NUMBER_OF_ARGUMENTS_DOESNT_MATCH
   \<and> Quantiles_setParameters [] \<lparr>levels = [], type = None\<rparr>
       = Inl NUMBER_OF_ARGUMENTS_DOESNT_MATCH
   \<and> Quantiles_setParameters [Float64 (1 / 2), Null] \<lparr>levels = [], type = None\<rparr>
       = Inl ParameterTypeError
   \<and> Quantiles_setParameters [Float64 (1 / 2), UInt64 1] \<lparr>levels = [], type = None\<rparr>
       = Inr \<lparr>levels = [1 / 2, 1], type = None\<rparr>"
proof -
  let ?f = AggregateFunctionQuantile_default
  let ?g = "\<lparr>levels = [] :: real list, type = None\<rparr>"
  have f: "?f = \<lparr>level = 1 / 2, type = None\<rparr>"
    by (simp add: AggregateFunctionQuantile_default_def AggregateFunctionQuantile_init_def)
  have 1: "Quantile_setParameters [String ''median''] ?f = Inl ParameterTypeError"
    using setParameters_failures [where params = "[String ''median'']" and f = ?f] by simp
  have 2: "Quantile_setParameters [Float64 (1 / 4)] ?f = Inr \<lparr>level = 1 / 4, type = None\<rparr>"
    using setParameters_failures [where params = "[Float64 (1 / 4)]" and f = ?f and f' = "\<lparr>level = 1 / 4, type = None\<rparr>"]
    by (simp add: f)
  have 3: "Quantile_setParameters [] ?f = Inl NUMBER_OF_ARGUMENTS_DOESNT_MATCH"
    using setParameters_failures [where params = "[]" and f = ?f] by simp
  have 4: "Quantiles_setParameters [] ?g = Inl NUMBER_OF_ARGUMENTS_DOESNT_MATCH"
    using setParameters_failures [where params = "[]" and g = ?g] by simp
  have 5: "Quantiles_setParameters [Float64 (1 / 2), Null] ?g = Inl ParameterTypeError"
    using setParameters_failures [where params = "[Float64 (1 / 2), Null]" and g = ?g] by simp
  have 6: "Quantiles_setParameters [Float64 (1 / 2), UInt64 1] ?g = Inr \<lparr>levels = [1 / 2, 1], type = None\<rparr>"
    using setParameters_failures [where params = "[Float64 (1 / 2), UInt64 1]" and g = ?g and g' = "\<lparr>levels = [1 / 2, 1], type = None\<rparr>"]
    by simp
  from 1 2 3 4 5 6 show ?thesis by simp
qed

text \<open>
  Claim C8 as stated fails: one parameter, and at least one parameter, are the right
  numbers, and configuration fails on a parameter that is not numeric.
\<close>

theorem setParameters_fails_on_string:
  "length [String ''median''] = 1
   \<and> Quantile_setParameters [String ''median''] AggregateFunctionQuantile_default
       = Inl ParameterTypeError
   \<and> [Float64 (1 / 2), Null] \<noteq> []
   \<and> Quantiles_setParameters [Float64 (1 / 2), Null] \<lparr>levels = [], type = None\<rparr>
       = Inl ParameterTypeError"
  by (simp add: Quantile_setParameters_def Quantiles_setParameters_def resize_def)

text \<open>
  Claim C9. The default-constructed \<^verbatim>\<open>quantile\<close> function has level \<open>1/2\<close>, and its
  \<^verbatim>\<open>insertResultInto\<close> pushes the quantile at level \<open>1/2\<close> of the sample: the median, \<open>30\<close>
  for the sample \<open>40, 10, 50, 20, 30\<close>.
\<close>

theorem default_level_is_median:
  "level AggregateFunctionQuantile_default = 1 / 2
   \<and> Quantile_insertResultInto kind returns_float AggregateFunctionQuantile_default place to
       = (snd (quantileInterpolated kind (1 / 2) place),
          to @ [pushed_value kind returns_float (fst (quantileInterpolated kind (1 / 2) place))])
   \<and> Quantile_insertResultInto Int64_kind True AggregateFunctionQuantile_default
         \<lparr>capacity = 8, seen_count = 5, sample = [40, 10, 50, 20, 30], rng_state = g\<rparr> []
       = (\<lparr>capacity = 8, seen_count = 5, sample = [10, 20, 30, 40, 50], rng_state = g\<rparr>, [Val 30])
   \<and> Quantile_insertResultInto Int64_kind False AggregateFunctionQuantile_default
         \<lparr>capacity = 8, seen_count = 5, sample = [40, 10, 50, 20, 30], rng_state = g\<rparr> []
       = (\<lparr>capacity = 8, seen_count = 5, sample = [10, 20, 30, 40, 50], rng_state = g\<rparr>, [Val 30])"
  by (simp add: AggregateFunctionQuantile_default_def AggregateFunctionQuantile_init_def
      Quantile_insertResultInto_def quantileInterpolated_def quantile_of_sorted_def
      interpolate_def clamp_level_def Int64_kind_def Int64_of_double_def pushed_value_def
      Let_def split: prod.splits)

text \<open>
  Claim C10. \<^verbatim>\<open>insertResultInto\<close> of \<^verbatim>\<open>quantiles\<close> keeps what the nested column held,
  appends as many scalars as there are levels, and appends one offset, the last offset (0
  for the first entry) plus the number of levels, in 64-bit arithmetic. So the last offset
  stays the size of the nested column as a 64-bit number; and as long as that size is below
  \<open>2 ^ 64\<close>, a consistent column stays consistent, and in a column filled by finalizations
  only, the last offset is the number of scalars.
\<close>

theorem array_column_offsets:
  "data (snd (Quantiles_insertResultInto kind returns_float f place to))
     = data to @ drop (length (data to)) (data (snd (Quantiles_insertResultInto kind returns_float f place to)))
   \<and> length (data (snd (Quantiles_insertResultInto kind returns_float f place to)))
     = length (data to) + length (levels f)
   \<and> offsets (snd (Quantiles_insertResultInto kind returns_float f place to))
     = offsets to @ [last_offset to + word_of_nat (length (levels f))]
   \<and> last_offset (snd (Quantiles_insertResultInto kind returns_float f place to))
     = last_offset to + word_of_nat (length (levels f))
   \<and> (last_offset to = word_of_nat (length (data to)) \<longrightarrow>
        last_offset (snd (Quantiles_insertResultInto kind returns_float f place to))
          = word_of_nat (length (data (snd (Quantiles_insertResultInto kind returns_float f place to)))))
   \<and> (column_consistent to \<and> length (data to) + length (levels f) < 2 ^ 64 \<longrightarrow>
        column_consistent (snd (Quantiles_insertResultInto kind returns_float f place to)))
   \<and> (length places * length (levels f) < 2 ^ 64 \<longrightarrow>
        column_consistent (insertResultInto_all kind returns_float f places \<lparr>offsets = [], data = []\<rparr>)
        \<and> unat (last_offset (insertResultInto_all kind returns_float f places \<lparr>offsets = [], data = []\<rparr>))
            = length places * length (levels f))"
proof -
  let ?to = "snd (Quantiles_insertResultInto kind returns_float f place to)"
  have e: "column_consistent \<lparr>offsets = [], data = []\<rparr>"
    by (simp add: column_consistent_def last_offset_def)
  have all: "column_consistent (insertResultInto_all kind returns_float f places \<lparr>offsets = [], data = []\<rparr>)
        \<and> unat (last_offset (insertResultInto_all kind returns_float f places \<lparr>offsets = [], data = []\<rparr>))
            = length places * length (levels f)"
    if "length places * length (levels f) < 2 ^ 64"
    using insertResultInto_all_consistent [OF e, of places f kind returns_float] that
    by (simp add: column_consistent_def)
  have one: "column_consistent ?to"
    if "column_consistent to" and "length (data to) + length (levels f) < 2 ^ 64"
    using insertResultInto_all_consistent [OF that(1), of "[place]" f kind returns_float] that(2)
    by simp
  have l: "last_offset ?to = last_offset to + word_of_nat (length (levels f))"
    by (simp add: Quantiles_insertResultInto_eq last_offset_def)
  have w: "last_offset ?to = word_of_nat (length (data ?to))"
    if "last_offset to = word_of_nat (length (data to))"
    using that by (simp add: l Quantiles_insertResultInto_eq last_offset_def)
  have d: "data ?to = data to @ drop (length (data to)) (data ?to)"
    "length (data ?to) = length (data to) + length (levels f)"
    "offsets ?to = offsets to @ [last_offset to + word_of_nat (length (levels f))]"
    by (simp_all add: Quantiles_insertResultInto_eq)
  from d l w one all show ?thesis
    by blast
qed

theorem array_column_offsets_witness:
  "column_consistent \<lparr>offsets = [2, 4], data = [Val 1, Val 2, Val 3, Val 4]\<rparr>
   \<and> length [Val 1, Val 2, Val 3, Val 4] + length [1 / 2, 0 :: real] < (2 :: nat) ^ 64
   \<and> snd (Quantiles_insertResultInto Int64_kind True \<lparr>levels = [1 / 2, 0], type = None\<rparr>
        \<lparr>capacity = 8, seen_count = 3, sample = [30, 10, 20], rng_state = 0 :: nat\<rparr>
        \<lparr>offsets = [2, 4], data = [Val 1, Val 2, Val 3, Val 4]\<rparr>)
     = \<lparr>offsets = [2, 4, 6], data = [Val 1, Val 2, Val 3, Val 4, Val 20, Val 10]\<rparr>
   \<and> column_consistent \<lparr>offsets = [2, 4, 6], data = [Val 1, Val 2, Val 3, Val 4, Val 20, Val 10]\<rparr>"
proof -
  let ?f = "\<lparr>levels = [1 / 2, 0], type = None\<rparr>"
  let ?place = "\<lparr>capacity = 8, seen_count = 3, sample = [30, 10, 20 :: int], rng_state = 0 :: nat\<rparr>"
  let ?to = "\<lparr>offsets = [2, 4], data = [Val 1, Val 2, Val 3, Val 4]\<rparr>"
  have c: "column_consistent ?to"
    by (simp add: column_consistent_def last_offset_def)
  have b: "length (data ?to) + length (levels ?f) < 2 ^ 64"
    by simp
  have r: "snd (Quantiles_insertResultInto Int64_kind True ?f ?place ?to)
     = \<lparr>offsets = [2, 4, 6], data = [Val 1, Val 2, Val 3, Val 4, Val 20, Val 10]\<rparr>"
    by (simp add: Quantiles_insertResultInto_def quantileInterpolated_def quantile_of_sorted_def
        interpolate_def clamp_level_def Int64_kind_def pushed_value_def Let_def)
  from array_column_offsets [of Int64_kind True ?f ?place ?to] c b
  have "column_consistent (snd (Quantiles_insertResultInto Int64_kind True ?f ?place ?to))"
    by blast
  with c r show ?thesis by simp
qed

end
